theory Spec2Isabelle
  imports Main "HOL-Library.Sublist" "HOL-Library.Log_Nat"
begin

section \<open>Python strings\<close>

text \<open>
  The evaluator (\<^verbatim>\<open>apo/scripts/evaluator.py\<close>) works on Python \<^verbatim>\<open>str\<close> values. A
  \<^verbatim>\<open>str\<close> is modelled by the \<^typ>\<open>string\<close> of its UTF-8 bytes. Splitting, searching
  and replacing a substring in UTF-8 text agree with doing so on code points, and the
  one non-ASCII character the source names, the arrow U+2192, is its three bytes.
  Case conversion and white space are those of the ASCII range, where they agree with
  Python: \<open>upper\<close>, \<open>lower\<close> and \<open>strip\<close> leave bytes above 127 alone. On text
  with letters or white space outside ASCII the model therefore does not fold case or
  strip as \<^verbatim>\<open>str.upper()\<close>, \<^verbatim>\<open>str.lower()\<close> and \<^verbatim>\<open>str.strip()\<close> do; the theorems
  below either hold for any such functions or are evaluated on ASCII text.
\<close>

definition ascii_lowercase :: string where
  "ascii_lowercase = ''abcdefghijklmnopqrstuvwxyz''"

definition ascii_uppercase :: string where
  "ascii_uppercase = ''ABCDEFGHIJKLMNOPQRSTUVWXYZ''"

definition upper_char :: "char \<Rightarrow> char" where
  "upper_char c = (case map_of (zip ascii_lowercase ascii_uppercase) c of None \<Rightarrow> c | Some u \<Rightarrow> u)"

definition lower_char :: "char \<Rightarrow> char" where
  "lower_char c = (case map_of (zip ascii_uppercase ascii_lowercase) c of None \<Rightarrow> c | Some l \<Rightarrow> l)"

definition upper :: "string \<Rightarrow> string" where
  "upper s = map upper_char s"

definition lower :: "string \<Rightarrow> string" where
  "lower s = map lower_char s"

text \<open>
  The characters \<^verbatim>\<open>str.strip()\<close> removes in the ASCII range: tab, line feed, vertical
  tab, form feed, carriage return, the four separators 0x1C to 0x1F, and the space.
\<close>

definition whitespace :: "char list" where
  "whitespace = [CHR 0x09, CHR 0x0A, CHR 0x0B, CHR 0x0C, CHR 0x0D,
                 CHR 0x1C, CHR 0x1D, CHR 0x1E, CHR 0x1F, CHR 0x20]"

definition isspace :: "char \<Rightarrow> bool" where
  "isspace c = (c \<in> set whitespace)"

definition lstrip :: "string \<Rightarrow> string" where
  "lstrip s = dropWhile isspace s"

definition rstrip :: "string \<Rightarrow> string" where
  "rstrip s = rev (dropWhile isspace (rev s))"

definition strip :: "string \<Rightarrow> string" where
  "strip s = rstrip (lstrip s)"

definition startswith :: "string \<Rightarrow> string \<Rightarrow> bool" where
  "startswith s p = prefix p s"

text \<open>\<^verbatim>\<open>needle in haystack\<close> on strings: \<open>needle\<close> occurs as a contiguous run.\<close>

fun str_in :: "string \<Rightarrow> string \<Rightarrow> bool" where
  "str_in needle [] = (needle = [])"
| "str_in needle (c # cs) = (prefix needle (c # cs) \<or> str_in needle cs)"

text \<open>
  \<^verbatim>\<open>s.replace(old, new)\<close>: every occurrence of \<open>old\<close>, found left to right without
  overlap, becomes \<open>new\<close>. With an empty \<open>old\<close> Python puts \<open>new\<close> before every
  character and at the end.
\<close>

function replace :: "string \<Rightarrow> string \<Rightarrow> string \<Rightarrow> string" where
  "replace [] old new = (if old = [] then new else [])"
| "replace (c # cs) old new =
     (if old = [] then new @ c # replace cs old new
      else if prefix old (c # cs) then new @ replace (drop (length old) (c # cs)) old new
      else c # replace cs old new)"
  by pat_completeness auto
termination
  by (relation "measure (\<lambda>(s, old, new). length s)") auto

text \<open>
  \<^verbatim>\<open>s.split(sep)\<close> for a separator of one character, which is what the source passes
  (\<^verbatim>\<open>"\n"\<close> and \<^verbatim>\<open>"|"\<close>). The result always has at least one field.
\<close>

fun split :: "string \<Rightarrow> char \<Rightarrow> string list" where
  "split [] sep = [[]]"
| "split (c # cs) sep =
     (if c = sep then [] # split cs sep
      else (case split cs sep of [] \<Rightarrow> [[c]] | w # ws \<Rightarrow> (c # w) # ws))"

section \<open>The fixed tables\<close>

text \<open>
  A Python dict literal is an association list in the order of the source; \<open>map_of\<close>
  is the lookup, so \<^verbatim>\<open>d.get(k)\<close> is \<open>map_of d k\<close> with \<open>None\<close> for a missing key.
\<close>

definition VERDICT_GROUPS :: "(string \<times> string) list" where
  "VERDICT_GROUPS =
    [(''KEEP'', ''keep''),
     (''REMOVE'', ''remove''),
     (''TRIM'', ''trim''),
     (''MOVE_NESTED'', ''move''),
     (''MOVE_HOOK'', ''move'')]"

definition KEY_CONCEPTS :: "(string \<times> (string \<times> string list) list) list" where
  "KEY_CONCEPTS =
    [(''case-01-bloated-generic'',
        [(''Code Style'', [''baked-in'', ''model already knows'', ''built-in'']),
         (''Security'', [''OWASP'', ''baked-in'', ''model already knows'']),
         (''My Project Structure'', [''discoverable'', ''filesystem'', ''read'']),
         (''Python Preferences'', [''nested'', ''only relevant when'', ''Python files''])]),
     (''case-02-mixed-quality'',
        [(''Never Modify Legacy API'', [''hook'', ''PCI'', ''compliance'', ''block'']),
         (''Secrets Management'', [''team-specific'', ''AWS'', ''access pattern'']),
         (''Testing'', [''discoverable'', ''package.json'', ''generic''])]),
     (''case-03-already-lean'',
        [(''Forbidden Actions'', [''hook'', ''guaranteed'', ''enforcement''])]),
     (''case-04-subtle-traps'',
        [(''Data Model Conventions'', [''HIPAA'', ''retention'', ''compliance'']),
         (''Code Quality'', [''generic'', ''discoverable'', ''config''])]),
     (''case-05-hook-candidates'',
        [(''Absolute Rules'', [''hook'', ''PreToolUse'', ''guaranteed'']),
         (''DO NOT TOUCH'', [''hook'', ''block'', ''Edit'', ''Write''])])]"

section \<open>Verdicts\<close>

definition arrow :: string where
  "arrow = [CHR 0xE2, CHR 0x86, CHR 0x92]"

definition mappings :: "(string \<times> string) list" where
  "mappings =
    [(''MOVE'', ''MOVE_NESTED''),
     (''MOVE_TO_NESTED'', ''MOVE_NESTED''),
     (''MOVE_TO_HOOK'', ''MOVE_HOOK''),
     (''HOOK'', ''MOVE_HOOK''),
     (''DELETE'', ''REMOVE''),
     (''DROP'', ''REMOVE'')]"

definition normalize_verdict :: "string \<Rightarrow> string" where
  "normalize_verdict raw =
     (let v = replace (replace (replace (strip (upper raw)) '' '' ''_'') arrow '''') ''->'' ''''
      in case map_of mappings v of None \<Rightarrow> v | Some m \<Rightarrow> m)"

definition score_verdict :: "string \<Rightarrow> string \<Rightarrow> int" where
  "score_verdict actual expected =
     (let a = normalize_verdict actual;
          e = normalize_verdict expected
      in if a = e then 2
         else if map_of VERDICT_GROUPS a = map_of VERDICT_GROUPS e then 1
         else 0)"

section \<open>Floating point\<close>

text \<open>
  The score is a Python \<^verbatim>\<open>float\<close>, an IEEE 754 binary64 number. A finite float is
  modelled by the rational number it denotes. \<open>to_double q\<close> is the float nearest to
  \<open>q\<close>, ties going to the even significand: 53 significant bits, and multiples of
  \<open>2 powi (-1074)\<close> in the subnormal range. Overflow is not modelled; every float the
  evaluator computes lies between 0 and 100.
\<close>

definition round_half_even :: "rat \<Rightarrow> int" where
  "round_half_even q =
     (let f = \<lfloor>q\<rfloor>; d = q - of_int f
      in if d < 1 / 2 then f
         else if 1 / 2 < d then f + 1
         else if even f then f else f + 1)"

text \<open>\<open>ilog2 q\<close> is \<open>\<lfloor>log\<^sub>2 q\<rfloor>\<close> for a positive \<open>q\<close>, from the bit lengths of its fraction.\<close>

definition ilog2 :: "rat \<Rightarrow> int" where
  "ilog2 q =
     (let d = bitlen (fst (quotient_of q)) - bitlen (snd (quotient_of q))
      in if 2 powi d \<le> q then d else d - 1)"

definition to_double_pos :: "rat \<Rightarrow> rat" where
  "to_double_pos q =
     (let e = max (ilog2 q - 52) (- 1074)
      in of_int (round_half_even (q / 2 powi e)) * 2 powi e)"

definition to_double :: "rat \<Rightarrow> rat" where
  "to_double q =
     (if q = 0 then 0
      else if q < 0 then - to_double_pos (- q)
      else to_double_pos q)"

datatype error = KeyError string | ZeroDivisionError

text \<open>
  \<^verbatim>\<open>a / b\<close> on two \<^verbatim>\<open>int\<close>s is the correctly rounded quotient and raises on a zero
  divisor; \<^verbatim>\<open>x * 100\<close> on a float is the rounded product; \<^verbatim>\<open>round(x, 1)\<close> rounds the
  exact value of \<open>x\<close> to one decimal, ties to even, and returns the float nearest
  to that decimal.
\<close>

definition int_truediv :: "int \<Rightarrow> int \<Rightarrow> error + rat" where
  "int_truediv a b =
     (if b = 0 then Inl ZeroDivisionError else Inr (to_double (of_int a / of_int b)))"

definition float_mul :: "rat \<Rightarrow> rat \<Rightarrow> rat" where
  "float_mul x y = to_double (x * y)"

definition round1 :: "rat \<Rightarrow> rat" where
  "round1 x = to_double (of_int (round_half_even (x * 10)) / 10)"

text \<open>A Python number that is either an \<^verbatim>\<open>int\<close> or a \<^verbatim>\<open>float\<close>.\<close>

datatype pynum = PyInt int | PyFloat rat

fun num_value :: "pynum \<Rightarrow> rat" where
  "num_value (PyInt i) = of_int i"
| "num_value (PyFloat x) = x"

section \<open>Reasoning score\<close>

definition score_reasoning :: "string \<Rightarrow> string \<Rightarrow> string \<Rightarrow> int" where
  "score_reasoning reason case_id section_name =
     (let concepts =
            (case map_of KEY_CONCEPTS case_id of
               None \<Rightarrow> []
             | Some per_case \<Rightarrow>
                 (case map_of per_case section_name of None \<Rightarrow> [] | Some cs \<Rightarrow> cs))
      in if concepts = [] then 0
         else (let reason_lower = lower reason
               in if list_ex (\<lambda>c. str_in (lower c) reason_lower) concepts then 1 else 0))"

section \<open>The table parser\<close>

text \<open>
  A parsed section is a Python dict from strings to strings: an association list.
  \<open>getitem\<close> is \<^verbatim>\<open>d[k]\<close>, which raises \<^verbatim>\<open>KeyError\<close> on a missing key, and
  \<open>get\<close> is \<^verbatim>\<open>d.get(k, default)\<close>.
\<close>

type_synonym pydict = "(string \<times> string) list"

definition getitem :: "pydict \<Rightarrow> string \<Rightarrow> error + string" where
  "getitem d k = (case map_of d k of None \<Rightarrow> Inl (KeyError k) | Some v \<Rightarrow> Inr v)"

definition get :: "pydict \<Rightarrow> string \<Rightarrow> string \<Rightarrow> string" where
  "get d k dflt = (case map_of d k of None \<Rightarrow> dflt | Some v \<Rightarrow> v)"

text \<open>\<^verbatim>\<open>[c.strip() for c in line.split("|")[1:-1]]\<close>\<close>

definition row_cells :: "string \<Rightarrow> string list" where
  "row_cells line = map strip (butlast (tl (split line CHR ''|'')))"

text \<open>
  The body of the loop over the lines: \<open>None\<close> where the source says
  \<^verbatim>\<open>continue\<close>, the section it appends otherwise. \<open>cells ! 0\<close> is read only after the
  length check, as in the source.
\<close>

definition parse_line :: "string \<Rightarrow> pydict option" where
  "parse_line l =
     (let line = strip l
      in if \<not> startswith line ''|'' then None
         else (let cells = row_cells line
               in if length cells < 3 then None
                  else if cells ! 0 \<in> set [''Section'', ''---'', ''''] \<or> startswith (cells ! 0) ''-''
                  then None
                  else if list_all (\<lambda>c. startswith c ''-'' \<or> c = '''') cells then None
                  else Some [(''name'', cells ! 0),
                             (''verdict'', if 3 \<le> length cells then cells ! 2 else ''''),
                             (''reason'', if 4 \<le> length cells then cells ! 3 else '''')]))"

fun parse_lines :: "string list \<Rightarrow> pydict list \<Rightarrow> pydict list" where
  "parse_lines [] sections = sections"
| "parse_lines (l # ls) sections =
     (case parse_line l of
        None \<Rightarrow> parse_lines ls sections
      | Some s \<Rightarrow> parse_lines ls (sections @ [s]))"

definition parse_audit_output :: "string \<Rightarrow> pydict list" where
  "parse_audit_output text = parse_lines (split text CHR 0x0A) []"

section \<open>The evaluation\<close>

text \<open>
  \<open>evaluate\<close> takes the answer key as \<^verbatim>\<open>json.loads\<close> returns it for a file of the
  documented schema: a case id and a sequence of sections, each a name and a verdict.
  Reading the file and decoding it come first in the source and fail before anything
  is scored; they are not part of the model.
\<close>

record answer_section =
  name :: string
  verdict :: string

record answer_key =
  answer_case_id :: string
  answer_sections :: "answer_section list"

record result =
  result_section :: string
  expected :: string
  actual :: string
  verdict_score :: int
  reasoning_score :: int

record report =
  case_id :: string
  score :: pynum
  total_points :: int
  max_points :: int
  sections :: "result list"

text \<open>
  \<^verbatim>\<open>d[k] = v\<close> on an insertion-ordered dict: a key already present keeps its place and
  takes the new value, a new key goes to the end.
\<close>

fun setitem :: "('k \<times> 'v) list \<Rightarrow> 'k \<Rightarrow> 'v \<Rightarrow> ('k \<times> 'v) list" where
  "setitem [] k v = [(k, v)]"
| "setitem ((k', v') # d) k v =
     (if k' = k then (k', v) # d else (k', v') # setitem d k v)"

text \<open>\<^verbatim>\<open>{s["name"]: s for s in answer["sections"]}\<close>\<close>

definition expected_dict :: "answer_section list \<Rightarrow> (string \<times> answer_section) list" where
  "expected_dict ss = foldl (\<lambda>d s. setitem d (name s) s) [] ss"

text \<open>
  The test of the inner loop,
  \<^verbatim>\<open>exp_name.lower() in a["name"].lower() or a["name"].lower() in exp_name.lower()\<close>,
  on the expected name and the row's name.
\<close>

definition name_matches :: "string \<Rightarrow> string \<Rightarrow> bool" where
  "name_matches exp_name n =
     (str_in (lower exp_name) (lower n) \<or> str_in (lower n) (lower exp_name))"

text \<open>The inner loop: the first parsed row that passes the test, \<open>None\<close> when the loop ends without one.\<close>

fun find_match :: "string \<Rightarrow> pydict list \<Rightarrow> error + pydict option" where
  "find_match exp_name [] = Inr None"
| "find_match exp_name (a # rest) =
     (case getitem a ''name'' of
        Inl e \<Rightarrow> Inl e
      | Inr n \<Rightarrow>
          if name_matches exp_name n then Inr (Some a) else find_match exp_name rest)"

text \<open>The body of the loop over the expected sections: the result it appends.\<close>

definition score_section :: "string \<Rightarrow> pydict list \<Rightarrow> string \<Rightarrow> answer_section \<Rightarrow> error + result" where
  "score_section cid rows exp_name exp_data =
     (case find_match exp_name rows of
        Inl e \<Rightarrow> Inl e
      | Inr None \<Rightarrow>
          Inr \<lparr>result_section = exp_name, expected = verdict exp_data, actual = ''MISSING'',
               verdict_score = 0, reasoning_score = 0\<rparr>
      | Inr (Some matched) \<Rightarrow>
          (case getitem matched ''verdict'' of
             Inl e \<Rightarrow> Inl e
           | Inr mv \<Rightarrow>
               (let v_score = score_verdict mv (verdict exp_data);
                    r_score = score_reasoning (get matched ''reason'' '''') cid exp_name
                in Inr \<lparr>result_section = exp_name, expected = verdict exp_data,
                        actual = normalize_verdict mv,
                        verdict_score = v_score, reasoning_score = r_score\<rparr>)))"

fun score_sections ::
  "string \<Rightarrow> pydict list \<Rightarrow> (string \<times> answer_section) list \<Rightarrow> result list \<Rightarrow> error + result list" where
  "score_sections cid rows [] results = Inr results"
| "score_sections cid rows ((exp_name, exp_data) # rest) results =
     (case score_section cid rows exp_name exp_data of
        Inl e \<Rightarrow> Inl e
      | Inr r \<Rightarrow> score_sections cid rows rest (results @ [r]))"

definition normalized_score :: "int \<Rightarrow> int \<Rightarrow> error + pynum" where
  "normalized_score total_score total_possible =
     (if 0 < total_possible
      then (case int_truediv total_score total_possible of
              Inl e \<Rightarrow> Inl e
            | Inr x \<Rightarrow> Inr (PyFloat (round1 (float_mul x 100))))
      else Inr (PyInt 0))"

definition evaluate :: "string \<Rightarrow> answer_key \<Rightarrow> error + report" where
  "evaluate audit_output answer =
     (let cid = answer_case_id answer;
          expected_secs = expected_dict (answer_sections answer);
          rows = parse_audit_output audit_output;
          total_possible = int (length expected_secs) * 3
      in case score_sections cid rows expected_secs [] of
           Inl e \<Rightarrow> Inl e
         | Inr results \<Rightarrow>
             (let total_score = sum_list (map (\<lambda>r. verdict_score r + reasoning_score r) results)
              in case normalized_score total_score total_possible of
                   Inl e \<Rightarrow> Inl e
                 | Inr normalized \<Rightarrow>
                     Inr \<lparr>case_id = cid, score = normalized, total_points = total_score,
                          max_points = total_possible, sections = results\<rparr>))"

text \<open>
  What the body of the loop appends for one expected section when no lookup fails, with
  the inner loop written as \<open>List.find\<close>. It serves the proofs: the lemmas below show
  that \<open>score_section\<close> returns exactly this on the rows the parser produces.
\<close>

definition section_result :: "string \<Rightarrow> pydict list \<Rightarrow> string \<Rightarrow> answer_section \<Rightarrow> result" where
  "section_result cid rows exp_name exp_data =
     (case List.find (\<lambda>a. name_matches exp_name (get a ''name'' '''')) rows of
        None \<Rightarrow>
          \<lparr>result_section = exp_name, expected = verdict exp_data, actual = ''MISSING'',
            verdict_score = 0, reasoning_score = 0\<rparr>
      | Some matched \<Rightarrow>
          \<lparr>result_section = exp_name, expected = verdict exp_data,
            actual = normalize_verdict (get matched ''verdict'' ''''),
            verdict_score = score_verdict (get matched ''verdict'' '''') (verdict exp_data),
            reasoning_score = score_reasoning (get matched ''reason'' '''') cid exp_name\<rparr>)"

section \<open>Verdict normalisation and scoring\<close>

text \<open>
  C1: two verdicts whose normal forms differ and are both missing from
  \<open>VERDICT_GROUPS\<close> are meant to score 0. The code compares the two lookups, and two
  missing keys both give \<open>None\<close>: \<^verbatim>\<open>score_verdict("FOO", "BAR")\<close> is 1.
\<close>

theorem score_verdict_unmapped_pair:
  "normalize_verdict ''FOO'' = ''FOO'' \<and> normalize_verdict ''BAR'' = ''BAR''
   \<and> map_of VERDICT_GROUPS ''FOO'' = None \<and> map_of VERDICT_GROUPS ''BAR'' = None
   \<and> score_verdict ''FOO'' ''BAR'' = 1"
  by code_simp

text \<open>The same holds for every such pair: two different tokens outside the table score 1.\<close>

lemma score_verdict_unmapped:
  assumes "normalize_verdict a \<noteq> normalize_verdict e"
    and "map_of VERDICT_GROUPS (normalize_verdict a) = None"
    and "map_of VERDICT_GROUPS (normalize_verdict e) = None"
  shows "score_verdict a e = 1"
  using assms by (simp add: score_verdict_def Let_def)

text \<open>
  C8: each of the five canonical tokens KEEP, REMOVE, TRIM, MOVE_NESTED, MOVE_HOOK is
  returned unchanged by \<open>normalize_verdict\<close>, so normalising the result once more
  changes nothing.
\<close>

theorem normalize_verdict_canonical:
  "map normalize_verdict [''KEEP'', ''REMOVE'', ''TRIM'', ''MOVE_NESTED'', ''MOVE_HOOK'']
     = [''KEEP'', ''REMOVE'', ''TRIM'', ''MOVE_NESTED'', ''MOVE_HOOK'']
   \<and> map (\<lambda>t. normalize_verdict (normalize_verdict t))
        [''KEEP'', ''REMOVE'', ''TRIM'', ''MOVE_NESTED'', ''MOVE_HOOK'']
     = map normalize_verdict [''KEEP'', ''REMOVE'', ''TRIM'', ''MOVE_NESTED'', ''MOVE_HOOK'']"
  by code_simp

section \<open>Bounds on the floating-point operations\<close>

lemma round_half_even_le:
  assumes "q \<le> of_int N"
  shows "round_half_even q \<le> N"
proof (cases "q = of_int N")
  case True
  then show ?thesis by (simp add: round_half_even_def)
next
  case False
  with assms have "q < of_int N" by simp
  then have "\<lfloor>q\<rfloor> < N" by (simp add: floor_less_iff)
  then show ?thesis by (simp add: round_half_even_def Let_def)
qed

lemma round_half_even_nonneg:
  assumes "0 \<le> q"
  shows "0 \<le> round_half_even q"
proof -
  from assms have "0 \<le> \<lfloor>q\<rfloor>" by simp
  then show ?thesis by (simp add: round_half_even_def Let_def)
qed

lemma bitlen_powi_bounds:
  assumes "0 < a"
  shows "(2::rat) powi (bitlen a - 1) \<le> of_int a" and "of_int a < (2::rat) powi (bitlen a)"
proof -
  from assms have l: "1 \<le> bitlen a"
    using bitlen_eq_zero_iff[of a] bitlen_nonneg[of a] by linarith
  have "(2::int) ^ nat (bitlen a - 1) \<le> a" and "a < 2 ^ nat (bitlen a)"
    using bitlen_bounds[OF assms] by simp_all
  then have "(of_int ((2::int) ^ nat (bitlen a - 1)) :: rat) \<le> of_int a"
    and "(of_int a :: rat) < of_int (2 ^ nat (bitlen a))"
    by (simp_all only: of_int_le_iff of_int_less_iff)
  then show "(2::rat) powi (bitlen a - 1) \<le> of_int a" and "of_int a < (2::rat) powi (bitlen a)"
    using l by (simp_all add: power_int_nonneg_exp)
qed

lemma ilog2_bounds:
  assumes "0 < q"
  shows "2 powi (ilog2 q) \<le> q \<and> q < 2 powi (ilog2 q + 1)"
proof -
  obtain a b where ab: "quotient_of q = (a, b)" by (cases "quotient_of q")
  then have b: "0 < b" and q: "q = of_int a / of_int b"
    by (simp_all add: quotient_of_denom_pos quotient_of_div)
  from assms q b have a: "0 < a" by (simp add: zero_less_divide_iff)
  define d where "d = bitlen a - bitlen b"
  have p: "(0::rat) < 2 powi k" for k by (simp add: power_int_def)
  have "2 powi (d + 1) * 2 powi (bitlen b - 1) = (2::rat) powi (bitlen a)"
    by (simp add: d_def flip: power_int_add)
  moreover have "2 powi (d + 1) * 2 powi (bitlen b - 1) \<le> 2 powi (d + 1) * (of_int b :: rat)"
    using bitlen_powi_bounds(1)[OF b] p[of "d + 1"] by (simp only: mult_le_cancel_left_pos)
  ultimately have "of_int a < 2 powi (d + 1) * (of_int b :: rat)"
    using bitlen_powi_bounds(2)[OF a] by linarith
  then have hi: "q < 2 powi (d + 1)"
    using b by (simp add: q pos_divide_less_eq)
  have "2 powi (d - 1) * 2 powi (bitlen b) = (2::rat) powi (bitlen a - 1)"
    by (simp add: d_def flip: power_int_add)
  moreover have "2 powi (d - 1) * (of_int b :: rat) < 2 powi (d - 1) * 2 powi (bitlen b)"
    using bitlen_powi_bounds(2)[OF b] p[of "d - 1"] by (simp only: mult_less_cancel_left_pos)
  ultimately have "2 powi (d - 1) * (of_int b :: rat) < of_int a"
    using bitlen_powi_bounds(1)[OF a] by linarith
  then have lo: "2 powi (d - 1) < q"
    using b by (simp add: q pos_less_divide_eq)
  show ?thesis
  proof (cases "2 powi d \<le> q")
    case True
    then have "ilog2 q = d" by (simp add: ilog2_def ab d_def)
    with True hi show ?thesis by simp
  next
    case False
    then have "ilog2 q = d - 1" by (simp add: ilog2_def ab d_def)
    with False lo show ?thesis by simp
  qed
qed

lemma ilog2_le:
  assumes "0 < q" and "q < 2 powi k"
  shows "ilog2 q < k"
proof (rule ccontr)
  assume "\<not> ilog2 q < k"
  then have "k \<le> ilog2 q" by simp
  then have "(2::rat) powi k \<le> 2 powi (ilog2 q)" by (rule power_int_increasing) simp
  with ilog2_bounds[OF assms(1)] assms(2) show False by linarith
qed

lemma to_double_pos_bounds:
  assumes "0 < q" and "q \<le> of_nat c" and "c < 2 ^ 53"
  shows "0 \<le> to_double_pos q \<and> to_double_pos q \<le> of_nat c"
proof -
  define e where "e = max (ilog2 q - 52) (- 1074)"
  have p: "(0::rat) < 2 powi k" for k by (simp add: power_int_def)
  have "(of_nat c :: rat) < of_nat (2 ^ 53)" using assms(3) by (simp only: of_nat_less_iff)
  then have "q < 2 powi 53" using assms(2) by simp
  then have "ilog2 q < 53" using ilog2_le[OF assms(1)] by blast
  then have e: "e \<le> 0" by (simp add: e_def)
  define n where "n = nat (- e)"
  with e have "e = - int n" by simp
  then have pe: "(2::rat) powi e = 1 / 2 ^ n"
    using power_int_minus_divide[of "2::rat" "int n"] by simp
  have td: "to_double_pos q = of_int (round_half_even (q / 2 powi e)) * 2 powi e"
    by (simp add: to_double_pos_def e_def Let_def)
  have "0 \<le> q / 2 powi e" using assms(1) p[of e] by simp
  then have "0 \<le> round_half_even (q / 2 powi e)" by (rule round_half_even_nonneg)
  then have lo: "0 \<le> to_double_pos q"
    using p[of e] by (simp add: td)
  have "q / 2 powi e \<le> of_nat c / 2 powi e"
    using assms(2) p[of e] by (simp add: divide_right_mono)
  also have "\<dots> = of_int (int c * 2 ^ n)"
    by (simp add: pe)
  finally have "round_half_even (q / 2 powi e) \<le> int c * 2 ^ n"
    by (rule round_half_even_le)
  then have "(of_int (round_half_even (q / 2 powi e)) :: rat) \<le> of_int (int c * 2 ^ n)"
    by (simp only: of_int_le_iff)
  then have "to_double_pos q \<le> of_int (int c * 2 ^ n) * 2 powi e"
    using p[of e] by (simp only: td mult_le_cancel_right_pos)
  also have "\<dots> = of_nat c"
    by (simp add: pe)
  finally show ?thesis using lo by simp
qed

lemma to_double_bounds:
  assumes "0 \<le> q" and "q \<le> of_nat c" and "c < 2 ^ 53"
  shows "0 \<le> to_double q \<and> to_double q \<le> of_nat c"
proof (cases "q = 0")
  case True
  then show ?thesis by (simp add: to_double_def)
next
  case False
  with assms(1) have "0 < q" by simp
  then show ?thesis using to_double_pos_bounds[OF _ assms(2,3)] by (simp add: to_double_def)
qed

lemma score_bounds:
  assumes "0 \<le> t" and "t \<le> p" and "0 < p"
  shows "0 \<le> round1 (float_mul (to_double (of_int t / of_int p)) 100)
       \<and> round1 (float_mul (to_double (of_int t / of_int p)) 100) \<le> 100
       \<and> (\<exists>k. 0 \<le> k \<and> k \<le> 1000 \<and> round1 (float_mul (to_double (of_int t / of_int p)) 100) = to_double (of_int k / 10))"
proof -
  define x where "x = to_double (of_int t / of_int p)"
  define y where "y = float_mul x 100"
  define k where "k = round_half_even (y * 10)"
  have "0 \<le> (of_int t / of_int p :: rat)" and "(of_int t / of_int p :: rat) \<le> of_nat 1"
    using assms by simp_all
  then have x: "0 \<le> x \<and> x \<le> of_nat 1" unfolding x_def by (rule to_double_bounds) simp
  then have "0 \<le> x * 100" and "x * 100 \<le> of_nat 100" by simp_all
  then have y: "0 \<le> y \<and> y \<le> of_nat 100" unfolding y_def float_mul_def by (rule to_double_bounds) simp
  then have "0 \<le> y * 10" and "y * 10 \<le> of_int 1000" by simp_all
  then have k: "0 \<le> k" "k \<le> 1000"
    unfolding k_def by (simp_all add: round_half_even_nonneg round_half_even_le)
  then have "0 \<le> (of_int k / 10 :: rat)" and "(of_int k / 10 :: rat) \<le> of_nat 100" by simp_all
  then have "0 \<le> to_double (of_int k / 10) \<and> to_double (of_int k / 10) \<le> of_nat 100"
    by (rule to_double_bounds) simp
  moreover have "round1 y = to_double (of_int k / 10)" by (simp add: round1_def k_def)
  ultimately show ?thesis using k unfolding x_def y_def by auto
qed

text \<open>Rounding a float to one decimal a second time changes nothing.\<close>

lemma round_half_even_near:
  assumes "\<bar>x - of_int k\<bar> < 1 / 2"
  shows "round_half_even x = k"
proof -
  from assms have "x - of_int k < 1 / 2" and "- (x - of_int k) < 1 / 2"
    by (simp_all only: abs_less_iff)
  then have lo: "of_int k - 1 / 2 < x" and hi: "x < of_int k + 1 / 2"
    by linarith+
  show ?thesis
  proof (cases "of_int k \<le> x")
    case True
    then have "\<lfloor>x\<rfloor> = k" using hi by (intro floor_unique) simp_all
    then show ?thesis using hi by (simp add: round_half_even_def Let_def)
  next
    case False
    then have "\<lfloor>x\<rfloor> = k - 1" using lo by (intro floor_unique) simp_all
    then show ?thesis using lo by (simp add: round_half_even_def Let_def)
  qed
qed

lemma round_half_even_error: "\<bar>of_int (round_half_even x) - x\<bar> \<le> 1 / 2"
proof -
  have "of_int \<lfloor>x\<rfloor> \<le> x" and "x < of_int \<lfloor>x\<rfloor> + 1" by linarith+
  then show ?thesis by (simp add: round_half_even_def Let_def abs_le_iff)
qed

lemma to_double_pos_error:
  assumes "0 < q" and "q < 2 powi m"
  shows "\<bar>to_double_pos q - q\<bar> \<le> 2 powi (max (m - 53) (- 1074)) / 2"
proof -
  define e where "e = max (ilog2 q - 52) (- 1074)"
  have p: "(0::rat) < 2 powi k" for k by (simp add: power_int_def)
  have "ilog2 q < m" using assms by (rule ilog2_le)
  then have "e \<le> max (m - 53) (- 1074)" by (simp add: e_def)
  then have pe: "(2::rat) powi e \<le> 2 powi (max (m - 53) (- 1074))"
    by (rule power_int_increasing) simp
  have "to_double_pos q - q = (of_int (round_half_even (q / 2 powi e)) - q / 2 powi e) * 2 powi e"
    using p[of e] by (simp add: to_double_pos_def e_def Let_def algebra_simps)
  then have "\<bar>to_double_pos q - q\<bar> = \<bar>of_int (round_half_even (q / 2 powi e)) - q / 2 powi e\<bar> * 2 powi e"
    using p[of e] by (simp add: abs_mult)
  also have "\<dots> \<le> 1 / 2 * 2 powi e"
    using round_half_even_error[of "q / 2 powi e"] p[of e] by (simp only: mult_le_cancel_right_pos)
  also have "\<dots> \<le> 2 powi (max (m - 53) (- 1074)) / 2"
    using pe by simp
  finally show ?thesis .
qed

lemma round1_tenth:
  assumes "0 \<le> k" and "k \<le> 1000"
  shows "round1 (to_double (of_int k / 10)) = to_double (of_int k / 10)"
proof (cases "k = 0")
  case True
  then show ?thesis by (simp add: round1_def to_double_def round_half_even_def)
next
  case False
  define q :: rat where "q = of_int k / 10"
  from False assms have q: "0 < q" "q < 2 powi 7" by (simp_all add: q_def)
  then have td: "to_double q = to_double_pos q" by (simp add: to_double_def)
  have "\<bar>to_double_pos q - q\<bar> \<le> 2 powi (max (7 - 53) (- 1074)) / 2"
    using q by (rule to_double_pos_error)
  also have "\<dots> = 1 / 2 ^ 47" by simp
  finally have err: "\<bar>to_double_pos q - q\<bar> \<le> 1 / 2 ^ 47" .
  have "of_int k = q * 10" by (simp add: q_def)
  then have "to_double q * 10 - of_int k = (to_double_pos q - q) * 10"
    by (simp only: td left_diff_distrib)
  then have "\<bar>to_double q * 10 - of_int k\<bar> = \<bar>(to_double_pos q - q) * 10\<bar>"
    by (simp only:)
  also have "\<dots> = \<bar>to_double_pos q - q\<bar> * 10"
    by (simp only: abs_mult abs_numeral)
  also have "\<dots> \<le> 1 / 2 ^ 47 * 10"
    using err by simp
  also have "\<dots> < (1 / 2 :: rat)" by simp
  finally have "round_half_even (to_double q * 10) = k" by (rule round_half_even_near)
  then show ?thesis by (simp add: round1_def q_def)
qed

section \<open>The parser and the evaluation as total functions\<close>

lemma parse_lines_acc: "parse_lines ls acc = acc @ List.map_filter parse_line ls"
  by (induction ls arbitrary: acc) (simp_all split: option.splits)

lemma parse_audit_output_map_filter:
  "parse_audit_output text = List.map_filter parse_line (split text CHR 0x0A)"
  by (simp add: parse_audit_output_def parse_lines_acc)

lemma parse_line_eq:
  "parse_line l =
     (let cells = row_cells (strip l)
      in if startswith (strip l) ''|'' \<and> 3 \<le> length cells \<and> cells ! 0 \<noteq> ''Section''
            \<and> cells ! 0 \<noteq> '''' \<and> \<not> startswith (cells ! 0) ''-''
         then Some [(''name'', cells ! 0), (''verdict'', cells ! 2),
                    (''reason'', if 4 \<le> length cells then cells ! 3 else '''')]
         else None)"
proof -
  define cells where "cells = row_cells (strip l)"
  have "\<not> list_all (\<lambda>c. startswith c ''-'' \<or> c = '''') cells"
    if "3 \<le> length cells" "cells ! 0 \<noteq> ''''" "\<not> startswith (cells ! 0) ''-''"
  proof -
    from that(1) have "0 < length cells" by linarith
    then have "cells ! 0 \<in> set cells" by (rule nth_mem)
    with that(2,3) show ?thesis by (auto simp: list_all_iff)
  qed
  moreover have "startswith ''---'' ''-''" by (simp add: startswith_def)
  ultimately show ?thesis
    unfolding parse_line_def Let_def cells_def[symmetric]
    by (auto simp: not_less)
qed

lemma parse_line_Some:
  assumes "parse_line l = Some a"
  shows "\<exists>n v r. a = [(''name'', n), (''verdict'', v), (''reason'', r)] \<and> n \<noteq> ''''"
  using assms unfolding parse_line_eq Let_def by (auto split: if_splits)

lemma parse_audit_output_rows:
  assumes "a \<in> set (parse_audit_output text)"
  shows "\<exists>n v r. a = [(''name'', n), (''verdict'', v), (''reason'', r)] \<and> n \<noteq> ''''"
proof -
  from assms obtain l where "parse_line l = Some a"
    by (auto simp: parse_audit_output_map_filter List.map_filter_def)
  then show ?thesis by (rule parse_line_Some)
qed

lemma find_match_rows:
  assumes "\<And>a. a \<in> set rows \<Longrightarrow> \<exists>n v r. a = [(''name'', n), (''verdict'', v), (''reason'', r)]"
  shows "find_match e rows = Inr (List.find (\<lambda>a. name_matches e (get a ''name'' '''')) rows)"
  using assms
proof (induction rows)
  case Nil
  then show ?case by simp
next
  case (Cons a rows)
  from Cons.prems[of a] obtain n v r where a: "a = [(''name'', n), (''verdict'', v), (''reason'', r)]"
    by auto
  have "find_match e rows = Inr (List.find (\<lambda>a. name_matches e (get a ''name'' '''')) rows)"
    using Cons.prems by (intro Cons.IH) simp
  then show ?case by (simp add: a getitem_def get_def)
qed

lemma find_match_append:
  assumes "find_match n xs = Inr None"
  shows "find_match n (xs @ ys) = find_match n ys"
  using assms by (induction xs) (auto split: sum.splits if_splits)

lemma score_section_rows:
  assumes "\<And>a. a \<in> set rows \<Longrightarrow> \<exists>n v r. a = [(''name'', n), (''verdict'', v), (''reason'', r)]"
  shows "score_section cid rows n d = Inr (section_result cid rows n d)"
proof (cases "List.find (\<lambda>a. name_matches n (get a ''name'' '''')) rows")
  case None
  then show ?thesis
    by (simp add: score_section_def section_result_def find_match_rows[OF assms])
next
  case (Some a)
  then have "a \<in> set rows" by (auto simp: find_Some_iff)
  from assms[OF this] obtain nm v r where "a = [(''name'', nm), (''verdict'', v), (''reason'', r)]"
    by auto
  with Some show ?thesis
    by (simp add: score_section_def section_result_def find_match_rows[OF assms] getitem_def get_def)
qed

lemma score_sections_rows:
  assumes "\<And>a. a \<in> set rows \<Longrightarrow> \<exists>n v r. a = [(''name'', n), (''verdict'', v), (''reason'', r)]"
  shows "score_sections cid rows E acc = Inr (acc @ map (\<lambda>(n, d). section_result cid rows n d) E)"
proof (induction E arbitrary: acc)
  case Nil
  then show ?case by simp
next
  case (Cons p E)
  obtain n d where p: "p = (n, d)" by (cases p)
  show ?case by (simp add: p score_section_rows[OF assms] Cons.IH)
qed

lemma normalized_score_eq:
  "normalized_score t p =
     Inr (if 0 < p then PyFloat (round1 (float_mul (to_double (of_int t / of_int p)) 100)) else PyInt 0)"
  by (simp add: normalized_score_def int_truediv_def)

lemma evaluate_eq:
  "evaluate text answer =
     Inr \<lparr>case_id = answer_case_id answer,
          score = (if 0 < int (length (expected_dict (answer_sections answer))) * 3
                   then PyFloat (round1 (float_mul (to_double
                          (of_int (sum_list (map (\<lambda>r. verdict_score r + reasoning_score r)
                             (map (\<lambda>(n, d). section_result (answer_case_id answer) (parse_audit_output text) n d)
                                (expected_dict (answer_sections answer)))))
                           / of_int (int (length (expected_dict (answer_sections answer))) * 3))) 100))
                   else PyInt 0),
          total_points = sum_list (map (\<lambda>r. verdict_score r + reasoning_score r)
                           (map (\<lambda>(n, d). section_result (answer_case_id answer) (parse_audit_output text) n d)
                              (expected_dict (answer_sections answer)))),
          max_points = int (length (expected_dict (answer_sections answer))) * 3,
          sections = map (\<lambda>(n, d). section_result (answer_case_id answer) (parse_audit_output text) n d)
                       (expected_dict (answer_sections answer))\<rparr>"
proof -
  have rows: "\<exists>n v r. a = [(''name'', n), (''verdict'', v), (''reason'', r)]"
    if "a \<in> set (parse_audit_output text)" for a
    using parse_audit_output_rows[OF that] by blast
  show ?thesis
    unfolding evaluate_def Let_def
    by (simp only: score_sections_rows[OF rows] normalized_score_eq append_Nil sum.case)
qed

lemma score_verdict_range: "0 \<le> score_verdict a e \<and> score_verdict a e \<le> 2"
  by (simp add: score_verdict_def Let_def)

lemma score_reasoning_range: "0 \<le> score_reasoning r c s \<and> score_reasoning r c s \<le> 1"
  by (simp add: score_reasoning_def Let_def)

lemma section_result_points:
  "0 \<le> verdict_score (section_result cid rows n d) + reasoning_score (section_result cid rows n d)
   \<and> verdict_score (section_result cid rows n d) + reasoning_score (section_result cid rows n d) \<le> 3"
proof (cases "List.find (\<lambda>a. name_matches n (get a ''name'' '''')) rows")
  case None
  then show ?thesis by (simp add: section_result_def)
next
  case (Some a)
  then show ?thesis
    using score_verdict_range[of "get a ''verdict'' ''''" "verdict d"]
      score_reasoning_range[of "get a ''reason'' ''''" cid n]
    by (simp add: section_result_def)
qed

lemma sum_list_points:
  assumes "\<And>x. x \<in> set xs \<Longrightarrow> 0 \<le> f x \<and> f x \<le> (3::int)"
  shows "0 \<le> sum_list (map f xs) \<and> sum_list (map f xs) \<le> int (length xs) * 3"
  using assms
proof (induction xs)
  case Nil
  then show ?case by simp
next
  case (Cons x xs)
  have "0 \<le> f x \<and> f x \<le> 3" using Cons.prems by simp
  moreover have "0 \<le> sum_list (map f xs) \<and> sum_list (map f xs) \<le> int (length xs) * 3"
    using Cons.prems by (intro Cons.IH) simp
  ultimately show ?case by simp
qed

lemma setitem_keys:
  "map fst (setitem d k v) = (if k \<in> set (map fst d) then map fst d else map fst d @ [k])"
  by (induction d) force+

lemma expected_fold_keys:
  assumes "distinct (map fst d)"
  shows "distinct (map fst (foldl (\<lambda>d s. setitem d (name s) s) d ss))
       \<and> set (map fst (foldl (\<lambda>d s. setitem d (name s) s) d ss)) = set (map fst d) \<union> name ` set ss"
  using assms
proof (induction ss arbitrary: d)
  case Nil
  then show ?case by simp
next
  case (Cons s ss)
  have "distinct (map fst (setitem d (name s) s))"
    using Cons.prems by (simp add: setitem_keys)
  from Cons.IH[OF this] show ?case by (auto simp: setitem_keys)
qed

lemma expected_dict_distinct: "distinct (map fst (expected_dict ss))"
  using expected_fold_keys[of "[]" ss] by (simp add: expected_dict_def)

lemma expected_dict_key_set: "set (map fst (expected_dict ss)) = name ` set ss"
  using expected_fold_keys[of "[]" ss] by (simp add: expected_dict_def)

lemma expected_dict_length: "length (expected_dict ss) = card (name ` set ss)"
proof -
  have "card (set (map fst (expected_dict ss))) = length (map fst (expected_dict ss))"
    using expected_dict_distinct by (rule distinct_card)
  then show ?thesis by (simp only: expected_dict_key_set length_map)
qed

section \<open>The parser\<close>

text \<open>
  C2, as stated, fails: a row with four cells whose first cell starts with a dash and
  is not made of dashes, and whose other cells hold data, is not kept. Neither is a
  row whose first cell is empty. Both rows are neither a header nor a separator.
\<close>

theorem parse_audit_output_dash_row_dropped:
  "row_cells (strip ''| -draft notes | 1-5 | KEEP | team rule |'')
     = [''-draft notes'', ''1-5'', ''KEEP'', ''team rule'']
   \<and> parse_audit_output ''| -draft notes | 1-5 | KEEP | team rule |'' = []
   \<and> row_cells (strip ''|  | 1-5 | KEEP | team rule |'') = ['''', ''1-5'', ''KEEP'', ''team rule'']
   \<and> parse_audit_output ''|  | 1-5 | KEEP | team rule |'' = []"
  by code_simp

text \<open>
  C2, amended: \<open>parse_audit_output\<close> keeps a line exactly when, stripped, it starts
  with a pipe, has at least 3 cells, and its first cell is not \<^verbatim>\<open>Section\<close>, not empty
  and does not start with a dash. So a row with at least 3 cells is skipped exactly
  when its first cell is \<^verbatim>\<open>Section\<close>, is empty or starts with a dash; the test on all
  cells never decides. The kept rows come in the order of the lines.
\<close>

theorem parse_audit_output_kept_rows:
  "parse_audit_output text =
     concat (map (\<lambda>l. let cells = row_cells (strip l)
                       in if startswith (strip l) ''|'' \<and> 3 \<le> length cells
                             \<and> cells ! 0 \<noteq> ''Section'' \<and> cells ! 0 \<noteq> ''''
                             \<and> \<not> startswith (cells ! 0) ''-''
                          then [[(''name'', cells ! 0), (''verdict'', cells ! 2),
                                 (''reason'', if 4 \<le> length cells then cells ! 3 else '''')]]
                          else [])
                 (split text CHR 0x0A))"
proof -
  have "List.map_filter parse_line ls =
          concat (map (\<lambda>l. case parse_line l of None \<Rightarrow> [] | Some s \<Rightarrow> [s]) ls)" for ls
    by (induction ls) (simp_all split: option.splits)
  moreover have "(case parse_line l of None \<Rightarrow> [] | Some s \<Rightarrow> [s]) =
      (let cells = row_cells (strip l)
       in if startswith (strip l) ''|'' \<and> 3 \<le> length cells
             \<and> cells ! 0 \<noteq> ''Section'' \<and> cells ! 0 \<noteq> ''''
             \<and> \<not> startswith (cells ! 0) ''-''
          then [[(''name'', cells ! 0), (''verdict'', cells ! 2),
                 (''reason'', if 4 \<le> length cells then cells ! 3 else '''')]]
          else [])" for l
    by (simp add: parse_line_eq Let_def)
  ultimately show ?thesis
    by (simp only: parse_audit_output_map_filter)
qed

text \<open>
  C9: every section \<open>parse_audit_output\<close> returns has exactly the keys
  \<^verbatim>\<open>name\<close>, \<^verbatim>\<open>verdict\<close>, \<^verbatim>\<open>reason\<close>. It comes from a line of the text with at least 3
  cells: its name is the first cell and is not empty, its verdict the third, and its
  reason the fourth, or the empty string when the row has exactly 3 cells.
\<close>

theorem parse_audit_output_sections:
  assumes "s \<in> set (parse_audit_output text)"
  shows "map fst s = [''name'', ''verdict'', ''reason'']
       \<and> (\<exists>l \<in> set (split text CHR 0x0A). \<exists>cells.
             cells = row_cells (strip l) \<and> 3 \<le> length cells \<and> cells ! 0 \<noteq> ''''
             \<and> s = [(''name'', cells ! 0), (''verdict'', cells ! 2),
                    (''reason'', if length cells = 3 then '''' else cells ! 3)])"
proof -
  from assms obtain l where l: "l \<in> set (split text CHR 0x0A)" and p: "parse_line l = Some s"
    by (auto simp: parse_audit_output_map_filter List.map_filter_def)
  define cells where "cells = row_cells (strip l)"
  from p have "3 \<le> length cells \<and> cells ! 0 \<noteq> ''''
      \<and> s = [(''name'', cells ! 0), (''verdict'', cells ! 2),
             (''reason'', if 4 \<le> length cells then cells ! 3 else '''')]"
    unfolding parse_line_eq Let_def cells_def by (auto split: if_splits)
  moreover from this have "(if 4 \<le> length cells then cells ! 3 else '''')
      = (if length cells = 3 then '''' else cells ! 3)" by auto
  ultimately have "3 \<le> length cells \<and> cells ! 0 \<noteq> ''''
      \<and> s = [(''name'', cells ! 0), (''verdict'', cells ! 2),
             (''reason'', if length cells = 3 then '''' else cells ! 3)]"
    by simp
  then show ?thesis using l cells_def by auto
qed

text \<open>The row \<^verbatim>\<open>| Build | 1-5 | KEEP |\<close> of 3 cells gives a section with an empty reason.\<close>

theorem parse_audit_output_sections_witness:
  "map fst [(''name'', ''Build''), (''verdict'', ''KEEP''), (''reason'', '''')]
     = [''name'', ''verdict'', ''reason'']
   \<and> (\<exists>l \<in> set (split ''| Build | 1-5 | KEEP |'' CHR 0x0A). \<exists>cells.
         cells = row_cells (strip l) \<and> 3 \<le> length cells \<and> cells ! 0 \<noteq> ''''
         \<and> [(''name'', ''Build''), (''verdict'', ''KEEP''), (''reason'', '''')]
             = [(''name'', cells ! 0), (''verdict'', cells ! 2),
                (''reason'', if length cells = 3 then '''' else cells ! 3)])"
proof -
  have "[(''name'', ''Build''), (''verdict'', ''KEEP''), (''reason'', '''')]
          \<in> set (parse_audit_output ''| Build | 1-5 | KEEP |'')"
    by code_simp
  then show ?thesis by (rule parse_audit_output_sections)
qed

section \<open>The report\<close>

text \<open>
  C6: with no expected sections \<open>evaluate\<close> returns normally. The guard
  \<^verbatim>\<open>if total_possible > 0\<close> takes the branch without the division: the score is the
  integer 0, and \<open>total_points\<close> and \<open>max_points\<close> are 0, whatever the audit text.
\<close>

theorem evaluate_no_sections:
  "evaluate text \<lparr>answer_case_id = cid, answer_sections = []\<rparr>
     = Inr \<lparr>case_id = cid, score = PyInt 0, total_points = 0, max_points = 0, sections = []\<rparr>"
  by (simp add: evaluate_def expected_dict_def normalized_score_def)

text \<open>
  C3, as stated, fails: the expected sections are keyed by name, so two sections of
  the answer key with one name count once. Here the key has 2 sections and
  \<open>max_points\<close> is 3, not 6.
\<close>

theorem evaluate_duplicate_names:
  "evaluate ''''
     \<lparr>answer_case_id = ''case-03-already-lean'',
      answer_sections = [\<lparr>name = ''Forbidden Actions'', verdict = ''MOVE_HOOK''\<rparr>,
                         \<lparr>name = ''Forbidden Actions'', verdict = ''KEEP''\<rparr>]\<rparr>
     = Inr \<lparr>case_id = ''case-03-already-lean'', score = PyFloat 0, total_points = 0, max_points = 3,
            sections = [\<lparr>result_section = ''Forbidden Actions'', expected = ''KEEP'',
                          actual = ''MISSING'', verdict_score = 0, reasoning_score = 0\<rparr>]\<rparr>
   \<and> 3 * int (length [\<lparr>name = ''Forbidden Actions'', verdict = ''MOVE_HOOK''\<rparr>,
                        \<lparr>name = ''Forbidden Actions'', verdict = ''KEEP''\<rparr>]) = 6"
  by code_simp

text \<open>
  C3, amended: \<open>max_points\<close> is 3 times the number of distinct section names of
  the answer key. It is at most 3 times the number of sections, and equal to it exactly
  when no two sections share a name.
\<close>

theorem evaluate_max_points:
  "\<exists>r. evaluate text answer = Inr r
       \<and> max_points r = 3 * int (card (name ` set (answer_sections answer)))
       \<and> max_points r \<le> 3 * int (length (answer_sections answer))
       \<and> (max_points r = 3 * int (length (answer_sections answer)))
           = distinct (map name (answer_sections answer))"
proof -
  define ss where "ss = answer_sections answer"
  have "card (name ` set ss) = card (set (map name ss))" by simp
  then have le: "card (name ` set ss) \<le> length ss"
    using card_length[of "map name ss"] by simp
  have eq: "(card (name ` set ss) = length ss) = distinct (map name ss)"
    using card_distinct[of "map name ss"] distinct_card[of "map name ss"] by auto
  show ?thesis
    using le eq by (simp add: evaluate_eq expected_dict_length ss_def)
qed

text \<open>
  C4, as stated, fails: an audit text can contain the row and have an earlier row whose
  name also passes the test. The inner loop stops at the first match, so with the row
  \<^verbatim>\<open>| Test | 1 | KEEP | x |\<close> before it the section \<^verbatim>\<open>Testing\<close> is scored against
  \<^verbatim>\<open>Test\<close>: 0 points of 3 and the score 0.0.
\<close>

theorem evaluate_testing_earlier_row:
  "split ''| Test | 1 | KEEP | x |\<newline>| Testing Strategy | ... | TRIM | discoverable via package.json |'' CHR 0x0A
     = [''| Test | 1 | KEEP | x |'',
        ''| Testing Strategy | ... | TRIM | discoverable via package.json |'']
   \<and> parse_audit_output
       ''| Test | 1 | KEEP | x |\<newline>| Testing Strategy | ... | TRIM | discoverable via package.json |''
     = [[(''name'', ''Test''), (''verdict'', ''KEEP''), (''reason'', ''x'')],
        [(''name'', ''Testing Strategy''), (''verdict'', ''TRIM''),
         (''reason'', ''discoverable via package.json'')]]
   \<and> evaluate
       ''| Test | 1 | KEEP | x |\<newline>| Testing Strategy | ... | TRIM | discoverable via package.json |''
       \<lparr>answer_case_id = ''case-02-mixed-quality'',
        answer_sections = [\<lparr>name = ''Testing'', verdict = ''TRIM''\<rparr>]\<rparr>
     = Inr \<lparr>case_id = ''case-02-mixed-quality'', score = PyFloat 0, total_points = 0,
            max_points = 3,
            sections = [\<lparr>result_section = ''Testing'', expected = ''TRIM'', actual = ''KEEP'',
                          verdict_score = 0, reasoning_score = 0\<rparr>]\<rparr>"
  by code_simp

text \<open>
  C4, amended: the answer key of case \<^verbatim>\<open>case-02-mixed-quality\<close> with the one section
  \<^verbatim>\<open>Testing\<close> / \<^verbatim>\<open>TRIM\<close>, against an audit text one of whose lines parses to the
  row \<^verbatim>\<open>Testing Strategy\<close>, \<^verbatim>\<open>TRIM\<close>, \<^verbatim>\<open>discoverable via package.json\<close>, whatever its
  second cell holds, and in which no earlier row passes the test for
  \<^verbatim>\<open>Testing\<close>. The expected name is a substring of the row's name, the inner loop
  selects the row, the verdict scores 2 and the reasoning 1, and the report has 3
  points of 3 and the score 100.0.
\<close>

theorem evaluate_testing_example:
  assumes "split text CHR 0x0A = before @ [l] @ after"
    and "parse_line l = Some [(''name'', ''Testing Strategy''), (''verdict'', ''TRIM''),
                              (''reason'', ''discoverable via package.json'')]"
    and "find_match ''Testing'' (parse_lines before []) = Inr None"
  shows "name_matches ''Testing'' ''Testing Strategy''
       \<and> find_match ''Testing'' (parse_audit_output text)
           = Inr (Some [(''name'', ''Testing Strategy''), (''verdict'', ''TRIM''),
                        (''reason'', ''discoverable via package.json'')])
       \<and> evaluate text
            \<lparr>answer_case_id = ''case-02-mixed-quality'',
             answer_sections = [\<lparr>name = ''Testing'', verdict = ''TRIM''\<rparr>]\<rparr>
           = Inr \<lparr>case_id = ''case-02-mixed-quality'', score = PyFloat 100, total_points = 3,
                  max_points = 3,
                  sections = [\<lparr>result_section = ''Testing'', expected = ''TRIM'', actual = ''TRIM'',
                                verdict_score = 2, reasoning_score = 1\<rparr>]\<rparr>"
proof -
  let ?row = "[(''name'', ''Testing Strategy''), (''verdict'', ''TRIM''),
               (''reason'', ''discoverable via package.json'')]"
  have nm: "name_matches ''Testing'' ''Testing Strategy''" by code_simp
  have "parse_audit_output text = parse_lines before [] @ ?row # List.map_filter parse_line after"
    by (simp add: parse_audit_output_def assms(1,2) parse_lines_acc List.map_filter_def)
  then have fm: "find_match ''Testing'' (parse_audit_output text) = Inr (Some ?row)"
    using nm by (simp add: find_match_append[OF assms(3)] getitem_def)
  have E: "expected_dict [\<lparr>name = ''Testing'', verdict = ''TRIM''\<rparr>]
      = [(''Testing'', \<lparr>name = ''Testing'', verdict = ''TRIM''\<rparr>)]"
    by code_simp
  have sv: "score_verdict ''TRIM'' ''TRIM'' = 2" by code_simp
  have sr: "score_reasoning ''discoverable via package.json'' ''case-02-mixed-quality'' ''Testing'' = 1"
    by code_simp
  have nv: "normalize_verdict ''TRIM'' = ''TRIM''" by code_simp
  have ns: "normalized_score 3 3 = Inr (PyFloat 100)" by code_simp
  have "score_section ''case-02-mixed-quality'' (parse_audit_output text) ''Testing''
          \<lparr>name = ''Testing'', verdict = ''TRIM''\<rparr>
        = Inr \<lparr>result_section = ''Testing'', expected = ''TRIM'', actual = ''TRIM'',
               verdict_score = 2, reasoning_score = 1\<rparr>"
    by (simp add: score_section_def fm getitem_def get_def sv sr nv)
  then have "evaluate text
            \<lparr>answer_case_id = ''case-02-mixed-quality'',
             answer_sections = [\<lparr>name = ''Testing'', verdict = ''TRIM''\<rparr>]\<rparr>
           = Inr \<lparr>case_id = ''case-02-mixed-quality'', score = PyFloat 100, total_points = 3,
                  max_points = 3,
                  sections = [\<lparr>result_section = ''Testing'', expected = ''TRIM'', actual = ''TRIM'',
                                verdict_score = 2, reasoning_score = 1\<rparr>]\<rparr>"
    by (simp add: evaluate_def E ns)
  with nm fm show ?thesis by simp
qed

text \<open>
  The table with a header, a separator and the row
  \<^verbatim>\<open>| Testing Strategy | ... | TRIM | discoverable via package.json |\<close>.
\<close>

theorem evaluate_testing_example_witness:
  "parse_audit_output
     ''| Section | Lines | Verdict | Reason |\<newline>|---|---|---|---|\<newline>| Testing Strategy | ... | TRIM | discoverable via package.json |''
     = [[(''name'', ''Testing Strategy''), (''verdict'', ''TRIM''),
         (''reason'', ''discoverable via package.json'')]]
   \<and> name_matches ''Testing'' ''Testing Strategy''
   \<and> find_match ''Testing''
        (parse_audit_output
          ''| Section | Lines | Verdict | Reason |\<newline>|---|---|---|---|\<newline>| Testing Strategy | ... | TRIM | discoverable via package.json |'')
       = Inr (Some [(''name'', ''Testing Strategy''), (''verdict'', ''TRIM''),
                    (''reason'', ''discoverable via package.json'')])
   \<and> evaluate
         ''| Section | Lines | Verdict | Reason |\<newline>|---|---|---|---|\<newline>| Testing Strategy | ... | TRIM | discoverable via package.json |''
         \<lparr>answer_case_id = ''case-02-mixed-quality'',
          answer_sections = [\<lparr>name = ''Testing'', verdict = ''TRIM''\<rparr>]\<rparr>
       = Inr \<lparr>case_id = ''case-02-mixed-quality'', score = PyFloat 100, total_points = 3,
              max_points = 3,
              sections = [\<lparr>result_section = ''Testing'', expected = ''TRIM'', actual = ''TRIM'',
                            verdict_score = 2, reasoning_score = 1\<rparr>]\<rparr>"
proof -
  let ?text = "''| Section | Lines | Verdict | Reason |\<newline>|---|---|---|---|\<newline>| Testing Strategy | ... | TRIM | discoverable via package.json |''"
  have h1: "split ?text CHR 0x0A
      = [''| Section | Lines | Verdict | Reason |'', ''|---|---|---|---|'']
        @ [''| Testing Strategy | ... | TRIM | discoverable via package.json |''] @ []"
    by code_simp
  have h2: "parse_line ''| Testing Strategy | ... | TRIM | discoverable via package.json |''
      = Some [(''name'', ''Testing Strategy''), (''verdict'', ''TRIM''),
              (''reason'', ''discoverable via package.json'')]"
    by code_simp
  have h3: "find_match ''Testing''
      (parse_lines [''| Section | Lines | Verdict | Reason |'', ''|---|---|---|---|''] []) = Inr None"
    by code_simp
  have rows: "parse_audit_output ?text
     = [[(''name'', ''Testing Strategy''), (''verdict'', ''TRIM''),
         (''reason'', ''discoverable via package.json'')]]"
    by code_simp
  from evaluate_testing_example[OF h1 h2 h3] rows show ?thesis
    by simp
qed

text \<open>
  C5: \<open>evaluate\<close> always returns, and in the report the score lies between 0 and
  100. It is the float of a decimal \<open>k / 10\<close> with \<open>0 \<le> k \<le> 1000\<close>, and rounding it
  to one decimal once more returns it; it is the rounded value of 100 times
  \<open>total_points / max_points\<close>, or the integer 0 when \<open>max_points\<close> is 0.
  \<open>total_points\<close> is at least 0 and at most \<open>max_points\<close>.
\<close>

theorem evaluate_score_range:
  "\<exists>r. evaluate text answer = Inr r
       \<and> 0 \<le> num_value (score r) \<and> num_value (score r) \<le> 100
       \<and> (\<exists>k. 0 \<le> k \<and> k \<le> 1000 \<and> num_value (score r) = to_double (of_int k / 10))
       \<and> round1 (num_value (score r)) = num_value (score r)
       \<and> score r = (if 0 < max_points r
                     then PyFloat (round1 (float_mul
                            (to_double (of_int (total_points r) / of_int (max_points r))) 100))
                     else PyInt 0)
       \<and> 0 \<le> total_points r \<and> total_points r \<le> max_points r"
proof -
  define E where "E = expected_dict (answer_sections answer)"
  define R where "R = map (\<lambda>(n, d). section_result (answer_case_id answer) (parse_audit_output text) n d) E"
  define T where "T = sum_list (map (\<lambda>r. verdict_score r + reasoning_score r) R)"
  define P where "P = int (length E) * 3"
  define S where "S = (if 0 < P then PyFloat (round1 (float_mul (to_double (of_int T / of_int P)) 100))
                       else PyInt 0)"
  have ev: "evaluate text answer =
      Inr \<lparr>case_id = answer_case_id answer, score = S, total_points = T, max_points = P, sections = R\<rparr>"
    unfolding S_def T_def P_def R_def E_def by (rule evaluate_eq)
  have "0 \<le> verdict_score r + reasoning_score r \<and> verdict_score r + reasoning_score r \<le> 3"
    if "r \<in> set R" for r
    using that section_result_points by (auto simp: R_def)
  then have "0 \<le> T \<and> T \<le> int (length R) * 3"
    unfolding T_def by (rule sum_list_points)
  then have T: "0 \<le> T" "T \<le> P" by (simp_all add: P_def R_def)
  have "0 \<le> num_value S \<and> num_value S \<le> 100
        \<and> (\<exists>k. 0 \<le> k \<and> k \<le> 1000 \<and> num_value S = to_double (of_int k / 10))"
  proof (cases "0 < P")
    case True
    from score_bounds[OF T True] True show ?thesis by (simp add: S_def)
  next
    case False
    have "to_double (of_int 0 / 10) = 0" by (simp add: to_double_def)
    with False show ?thesis by (auto simp: S_def intro!: exI[of _ 0])
  qed
  moreover from this have "round1 (num_value S) = num_value S"
    using round1_tenth by auto
  ultimately show ?thesis using T by (simp add: ev S_def)
qed

text \<open>
  C7: let the \<open>i\<close>-th expected section have a name that passes the substring test
  against no parsed row. Then \<open>evaluate\<close> returns a report, not an error, and the
  \<open>i\<close>-th result records \<^verbatim>\<open>MISSING\<close> with both scores 0. The scoring goes on: the
  report has one result for every expected section, in their order; for each of them
  the inner loop returns, and the result is the \<^verbatim>\<open>MISSING\<close> record when it found no
  row, and otherwise the normalised verdict, the verdict score and the reasoning score
  of the row it found; \<open>total_points\<close> is the sum over all the results.
\<close>

theorem evaluate_missing_section:
  assumes "i < length (expected_dict (answer_sections answer))"
    and "expected_dict (answer_sections answer) ! i = (exp_name, exp_data)"
    and "\<forall>a \<in> set (parse_audit_output text). \<forall>n. getitem a ''name'' = Inr n \<longrightarrow> \<not> name_matches exp_name n"
  shows "\<exists>r. evaluate text answer = Inr r
           \<and> map result_section (sections r) = map fst (expected_dict (answer_sections answer))
           \<and> sections r ! i = \<lparr>result_section = exp_name, expected = verdict exp_data,
                                 actual = ''MISSING'', verdict_score = 0, reasoning_score = 0\<rparr>
           \<and> (\<forall>j < length (expected_dict (answer_sections answer)).
                 \<exists>n d m. expected_dict (answer_sections answer) ! j = (n, d)
                   \<and> find_match n (parse_audit_output text) = Inr m
                   \<and> sections r ! j =
                       (case m of
                          None \<Rightarrow>
                            \<lparr>result_section = n, expected = verdict d, actual = ''MISSING'',
                              verdict_score = 0, reasoning_score = 0\<rparr>
                        | Some a \<Rightarrow>
                            \<lparr>result_section = n, expected = verdict d,
                              actual = normalize_verdict (get a ''verdict'' ''''),
                              verdict_score = score_verdict (get a ''verdict'' '''') (verdict d),
                              reasoning_score =
                                score_reasoning (get a ''reason'' '''') (answer_case_id answer) n\<rparr>))
           \<and> total_points r = sum_list (map (\<lambda>x. verdict_score x + reasoning_score x) (sections r))"
proof -
  define rows where "rows = parse_audit_output text"
  define E where "E = expected_dict (answer_sections answer)"
  define R where "R = map (\<lambda>(n, d). section_result (answer_case_id answer) rows n d) E"
  have wf: "\<exists>n v r. b = [(''name'', n), (''verdict'', v), (''reason'', r)]" if "b \<in> set rows" for b
    using that parse_audit_output_rows unfolding rows_def by blast
  have fm: "find_match n rows = Inr (List.find (\<lambda>a. name_matches n (get a ''name'' '''')) rows)" for n
    by (rule find_match_rows[OF wf])
  have "\<not> name_matches exp_name (get a ''name'' '''')" if "a \<in> set rows" for a
  proof -
    from wf[OF that] obtain n v r where a: "a = [(''name'', n), (''verdict'', v), (''reason'', r)]"
      by blast
    then have "getitem a ''name'' = Inr n" and "get a ''name'' '''' = n"
      by (simp_all add: getitem_def get_def)
    with assms(3) that show ?thesis unfolding rows_def by auto
  qed
  then have "List.find (\<lambda>a. name_matches exp_name (get a ''name'' '''')) rows = None"
    by (simp add: find_None_iff)
  then have miss: "section_result (answer_case_id answer) rows exp_name exp_data
      = \<lparr>result_section = exp_name, expected = verdict exp_data,
         actual = ''MISSING'', verdict_score = 0, reasoning_score = 0\<rparr>"
    by (simp add: section_result_def)
  have sec: "result_section (section_result c rs n d) = n" for c rs n d
    by (simp add: section_result_def split: option.splits)
  have names: "map result_section R = map fst E"
    by (simp add: R_def sec case_prod_beta)
  have ith: "R ! i = \<lparr>result_section = exp_name, expected = verdict exp_data,
                       actual = ''MISSING'', verdict_score = 0, reasoning_score = 0\<rparr>"
    using assms(1,2) miss by (simp add: R_def E_def)
  have each: "\<forall>j < length E. \<exists>n d m. E ! j = (n, d) \<and> find_match n rows = Inr m
      \<and> R ! j = (case m of
                    None \<Rightarrow>
                      \<lparr>result_section = n, expected = verdict d, actual = ''MISSING'',
                        verdict_score = 0, reasoning_score = 0\<rparr>
                  | Some a \<Rightarrow>
                      \<lparr>result_section = n, expected = verdict d,
                        actual = normalize_verdict (get a ''verdict'' ''''),
                        verdict_score = score_verdict (get a ''verdict'' '''') (verdict d),
                        reasoning_score =
                          score_reasoning (get a ''reason'' '''') (answer_case_id answer) n\<rparr>)"
  proof (intro allI impI)
    fix j assume j: "j < length E"
    obtain n d where nd: "E ! j = (n, d)" by (cases "E ! j")
    with j have "R ! j = section_result (answer_case_id answer) rows n d" by (simp add: R_def)
    with nd show "\<exists>n d m. E ! j = (n, d) \<and> find_match n rows = Inr m
      \<and> R ! j = (case m of
                    None \<Rightarrow>
                      \<lparr>result_section = n, expected = verdict d, actual = ''MISSING'',
                        verdict_score = 0, reasoning_score = 0\<rparr>
                  | Some a \<Rightarrow>
                      \<lparr>result_section = n, expected = verdict d,
                        actual = normalize_verdict (get a ''verdict'' ''''),
                        verdict_score = score_verdict (get a ''verdict'' '''') (verdict d),
                        reasoning_score =
                          score_reasoning (get a ''reason'' '''') (answer_case_id answer) n\<rparr>)"
      by (simp add: fm section_result_def)
  qed
  have ev: "evaluate text answer = Inr \<lparr>case_id = answer_case_id answer,
      score = (if 0 < int (length E) * 3
               then PyFloat (round1 (float_mul (to_double
                      (of_int (sum_list (map (\<lambda>r. verdict_score r + reasoning_score r) R))
                       / of_int (int (length E) * 3))) 100))
               else PyInt 0),
      total_points = sum_list (map (\<lambda>r. verdict_score r + reasoning_score r) R),
      max_points = int (length E) * 3, sections = R\<rparr>"
    unfolding R_def E_def rows_def by (rule evaluate_eq)
  from names ith each show ?thesis
    unfolding ev E_def rows_def by simp
qed

text \<open>
  An answer key with \<^verbatim>\<open>Secrets Management\<close> and \<^verbatim>\<open>Testing\<close> against a table with the
  one row \<^verbatim>\<open>Testing\<close>: the first section is missing, and the second is scored after
  it, with 0 for the verdict and 1 for the reasoning.
\<close>

theorem evaluate_missing_section_witness:
  "\<exists>r. evaluate ''| Testing | 1-5 | KEEP | generic enough |''
          \<lparr>answer_case_id = ''case-02-mixed-quality'',
           answer_sections = [\<lparr>name = ''Secrets Management'', verdict = ''KEEP''\<rparr>,
                              \<lparr>name = ''Testing'', verdict = ''TRIM''\<rparr>]\<rparr> = Inr r
       \<and> map result_section (sections r) = [''Secrets Management'', ''Testing'']
       \<and> sections r =
           [\<lparr>result_section = ''Secrets Management'', expected = ''KEEP'',
              actual = ''MISSING'', verdict_score = 0, reasoning_score = 0\<rparr>,
            \<lparr>result_section = ''Testing'', expected = ''TRIM'',
              actual = ''KEEP'', verdict_score = 0, reasoning_score = 1\<rparr>]
       \<and> total_points r = 1"
proof -
  let ?text = "''| Testing | 1-5 | KEEP | generic enough |''"
  let ?answer = "\<lparr>answer_case_id = ''case-02-mixed-quality'',
           answer_sections = [\<lparr>name = ''Secrets Management'', verdict = ''KEEP''\<rparr>,
                              \<lparr>name = ''Testing'', verdict = ''TRIM''\<rparr>]\<rparr>"
  let ?row = "[(''name'', ''Testing''), (''verdict'', ''KEEP''), (''reason'', ''generic enough'')]"
  have E: "expected_dict [\<lparr>name = ''Secrets Management'', verdict = ''KEEP''\<rparr>,
                           \<lparr>name = ''Testing'', verdict = ''TRIM''\<rparr>]
      = [(''Secrets Management'', \<lparr>name = ''Secrets Management'', verdict = ''KEEP''\<rparr>),
         (''Testing'', \<lparr>name = ''Testing'', verdict = ''TRIM''\<rparr>)]"
    by code_simp
  have rows: "parse_audit_output ?text = [?row]"
    by code_simp
  have nm: "\<not> name_matches ''Secrets Management'' ''Testing''"
    by code_simp
  have h1: "0 < length (expected_dict (answer_sections ?answer))"
    by (simp add: E)
  have h2: "expected_dict (answer_sections ?answer) ! 0
      = (''Secrets Management'', \<lparr>name = ''Secrets Management'', verdict = ''KEEP''\<rparr>)"
    by (simp add: E)
  have h3: "\<forall>a \<in> set (parse_audit_output ?text). \<forall>n. getitem a ''name'' = Inr n
      \<longrightarrow> \<not> name_matches ''Secrets Management'' n"
    using nm by (simp add: rows getitem_def)
  from evaluate_missing_section[OF h1 h2 h3] obtain r where
    ev: "evaluate ?text ?answer = Inr r"
    by (elim exE conjE)
  have "evaluate ?text ?answer =
      Inr \<lparr>case_id = ''case-02-mixed-quality'', score = PyFloat (to_double (167 / 10)),
           total_points = 1, max_points = 6,
           sections =
             [\<lparr>result_section = ''Secrets Management'', expected = ''KEEP'',
                actual = ''MISSING'', verdict_score = 0, reasoning_score = 0\<rparr>,
              \<lparr>result_section = ''Testing'', expected = ''TRIM'',
                actual = ''KEEP'', verdict_score = 0, reasoning_score = 1\<rparr>]\<rparr>"
    by code_simp
  with ev have r: "r =
      \<lparr>case_id = ''case-02-mixed-quality'', score = PyFloat (to_double (167 / 10)),
       total_points = 1, max_points = 6,
       sections =
         [\<lparr>result_section = ''Secrets Management'', expected = ''KEEP'',
            actual = ''MISSING'', verdict_score = 0, reasoning_score = 0\<rparr>,
          \<lparr>result_section = ''Testing'', expected = ''TRIM'',
            actual = ''KEEP'', verdict_score = 0, reasoning_score = 1\<rparr>]\<rparr>"
    by simp
  have "evaluate ?text ?answer = Inr r
       \<and> map result_section (sections r) = [''Secrets Management'', ''Testing'']
       \<and> sections r =
           [\<lparr>result_section = ''Secrets Management'', expected = ''KEEP'',
              actual = ''MISSING'', verdict_score = 0, reasoning_score = 0\<rparr>,
            \<lparr>result_section = ''Testing'', expected = ''TRIM'',
              actual = ''KEEP'', verdict_score = 0, reasoning_score = 1\<rparr>]
       \<and> total_points r = 1"
    using ev by (simp add: r)
  then show ?thesis by (rule exI)
qed

text \<open>
  C10: the inner loop scans all the parsed rows for every expected section. When it
  selects one row \<open>a\<close> for the expected sections at two positions \<open>i \<noteq> j\<close>, their
  names differ and both results are scored against the verdict and the reason of
  \<open>a\<close>.
\<close>

theorem evaluate_row_matched_twice:
  assumes "i < length (expected_dict (answer_sections answer))"
    and "j < length (expected_dict (answer_sections answer))"
    and "i \<noteq> j"
    and "expected_dict (answer_sections answer) ! i = (n1, d1)"
    and "expected_dict (answer_sections answer) ! j = (n2, d2)"
    and "find_match n1 (parse_audit_output text) = Inr (Some a)"
    and "find_match n2 (parse_audit_output text) = Inr (Some a)"
  shows "n1 \<noteq> n2
       \<and> (\<exists>r v. evaluate text answer = Inr r \<and> getitem a ''verdict'' = Inr v
            \<and> sections r ! i =
                \<lparr>result_section = n1, expected = verdict d1, actual = normalize_verdict v,
                 verdict_score = score_verdict v (verdict d1),
                 reasoning_score = score_reasoning (get a ''reason'' '''') (answer_case_id answer) n1\<rparr>
            \<and> sections r ! j =
                \<lparr>result_section = n2, expected = verdict d2, actual = normalize_verdict v,
                 verdict_score = score_verdict v (verdict d2),
                 reasoning_score = score_reasoning (get a ''reason'' '''') (answer_case_id answer) n2\<rparr>)"
proof -
  define rows where "rows = parse_audit_output text"
  define E where "E = expected_dict (answer_sections answer)"
  define cid where "cid = answer_case_id answer"
  have wf: "\<exists>n v r. b = [(''name'', n), (''verdict'', v), (''reason'', r)]" if "b \<in> set rows" for b
    using that parse_audit_output_rows unfolding rows_def by blast
  have f1: "List.find (\<lambda>a. name_matches n1 (get a ''name'' '''')) rows = Some a"
    and f2: "List.find (\<lambda>a. name_matches n2 (get a ''name'' '''')) rows = Some a"
    using assms(6,7) by (simp_all add: find_match_rows[OF wf] rows_def)
  from f1 have "a \<in> set rows" by (auto simp: find_Some_iff)
  from wf[OF this] obtain nm v rs where a: "a = [(''name'', nm), (''verdict'', v), (''reason'', rs)]"
    by blast
  then have v: "getitem a ''verdict'' = Inr v" "get a ''verdict'' '''' = v"
    by (simp_all add: getitem_def get_def)
  have "distinct (map fst E)" unfolding E_def by (rule expected_dict_distinct)
  then have "map fst E ! i = map fst E ! j \<longleftrightarrow> i = j"
    using assms(1,2) by (intro nth_eq_iff_index_eq) (simp_all add: E_def)
  then have ne: "n1 \<noteq> n2" using assms(1-5) by (simp add: E_def)
  have "map (\<lambda>(n, d). section_result cid rows n d) E ! i = section_result cid rows n1 d1"
    and "map (\<lambda>(n, d). section_result cid rows n d) E ! j = section_result cid rows n2 d2"
    using assms(1,2,4,5) by (simp_all add: E_def)
  then show ?thesis
    using ne v f1 f2
    by (simp add: evaluate_eq section_result_def E_def[symmetric] rows_def[symmetric] cid_def[symmetric])
qed

text \<open>
  The row \<^verbatim>\<open>Code Style\<close> is the match of the expected section \<^verbatim>\<open>Code\<close> and of the
  expected section \<^verbatim>\<open>Style\<close>.
\<close>

theorem evaluate_row_matched_twice_witness:
  "''Code'' \<noteq> ''Style''
   \<and> (\<exists>r v. evaluate ''| Code Style | 1-9 | REMOVE | the model already knows this |''
               \<lparr>answer_case_id = ''case-01-bloated-generic'',
                answer_sections = [\<lparr>name = ''Code'', verdict = ''REMOVE''\<rparr>,
                                   \<lparr>name = ''Style'', verdict = ''KEEP''\<rparr>]\<rparr> = Inr r
        \<and> getitem [(''name'', ''Code Style''), (''verdict'', ''REMOVE''),
                    (''reason'', ''the model already knows this'')] ''verdict'' = Inr v
        \<and> sections r ! 0 =
            \<lparr>result_section = ''Code'', expected = ''REMOVE'', actual = normalize_verdict v,
             verdict_score = score_verdict v ''REMOVE'',
             reasoning_score = score_reasoning
               (get [(''name'', ''Code Style''), (''verdict'', ''REMOVE''),
                     (''reason'', ''the model already knows this'')] ''reason'' '''')
               ''case-01-bloated-generic'' ''Code''\<rparr>
        \<and> sections r ! 1 =
            \<lparr>result_section = ''Style'', expected = ''KEEP'', actual = normalize_verdict v,
             verdict_score = score_verdict v ''KEEP'',
             reasoning_score = score_reasoning
               (get [(''name'', ''Code Style''), (''verdict'', ''REMOVE''),
                     (''reason'', ''the model already knows this'')] ''reason'' '''')
               ''case-01-bloated-generic'' ''Style''\<rparr>)"
proof -
  let ?text = "''| Code Style | 1-9 | REMOVE | the model already knows this |''"
  let ?answer = "\<lparr>answer_case_id = ''case-01-bloated-generic'',
                answer_sections = [\<lparr>name = ''Code'', verdict = ''REMOVE''\<rparr>,
                                   \<lparr>name = ''Style'', verdict = ''KEEP''\<rparr>]\<rparr>"
  let ?row = "[(''name'', ''Code Style''), (''verdict'', ''REMOVE''),
               (''reason'', ''the model already knows this'')]"
  have E: "expected_dict [\<lparr>name = ''Code'', verdict = ''REMOVE''\<rparr>,
                           \<lparr>name = ''Style'', verdict = ''KEEP''\<rparr>]
      = [(''Code'', \<lparr>name = ''Code'', verdict = ''REMOVE''\<rparr>),
         (''Style'', \<lparr>name = ''Style'', verdict = ''KEEP''\<rparr>)]"
    by code_simp
  have h1: "0 < length (expected_dict (answer_sections ?answer))"
    and h2: "1 < length (expected_dict (answer_sections ?answer))"
    by (simp_all add: E)
  have h3: "(0::nat) \<noteq> 1" by simp
  have h4: "expected_dict (answer_sections ?answer) ! 0 = (''Code'', \<lparr>name = ''Code'', verdict = ''REMOVE''\<rparr>)"
    and h5: "expected_dict (answer_sections ?answer) ! 1 = (''Style'', \<lparr>name = ''Style'', verdict = ''KEEP''\<rparr>)"
    by (simp_all add: E)
  have h6: "find_match ''Code'' (parse_audit_output ?text) = Inr (Some ?row)"
    by code_simp
  have h7: "find_match ''Style'' (parse_audit_output ?text) = Inr (Some ?row)"
    by code_simp
  from evaluate_row_matched_twice[OF h1 h2 h3 h4 h5 h6 h7] show ?thesis
    by simp
qed

end
